theory Spec2Isabelle
  imports Complex_Main "HOL-Library.AList"
begin

section \<open>Data model of \<open>src/services/biddingService.ts\<close>\<close>

text \<open>
  The TypeScript interfaces \<open>Bid\<close> and \<open>Auction\<close> become records, their string-literal
  union types become datatypes. A JavaScript \<open>number\<close> that holds a price or an instant is
  a \<open>real\<close>: the service only stores, compares and tests these numbers for truthiness, it
  never computes with a price, and the one caller of \<open>placeBid\<close> (\<open>AuctionCard\<close>) filters
  \<open>NaN\<close> before the call. The bid counter \<open>totalBids\<close> is a \<open>nat\<close>.
  Field names that both interfaces share carry a \<open>bid_\<close> or \<open>auction_\<close> prefix.
\<close>

datatype bid_state = BidActive | BidWon | BidOutbid | BidCancelled

datatype auction_state = AuctionActive | AuctionEnded | AuctionCancelled

record Bid =
  bid_id :: string
  bid_nftId :: string
  bidder :: string
  amount :: real
  timestamp :: real
  bid_status :: bid_state

record Auction =
  auction_id :: string
  nftId :: string
  seller :: string
  startingPrice :: real
  currentPrice :: real
  reservePrice :: "real option"
  startTime :: real
  endTime :: real
  status :: auction_state
  highestBid :: "Bid option"
  totalBids :: nat

text \<open>
  Of \<open>WalletContextState\<close> the services read three things: the flag \<open>connected\<close>, the
  public key (here already in its \<open>toString()\<close> form, \<open>None\<close> for \<open>null\<close>) and whether a
  \<open>signTransaction\<close> capability is present.
\<close>

record Wallet =
  connected :: bool
  publicKey :: "string option"
  signTransaction :: bool

text \<open>
  The two static \<open>Map\<close>s of \<open>BiddingService\<close>. A JavaScript \<open>Map\<close> iterates in insertion
  order and \<open>set\<close> on a present key keeps its position, which is what
  \<open>map_of\<close> and \<open>AList.update\<close> do on an association list. The keys of a \<open>Map\<close> are
  distinct; \<open>AList.update\<close> keeps them so.

  Objects are shared by reference in the source: the bid that \<open>auction.highestBid\<close>
  points to is an element of the bid list of that auction. The only write to a bid is
  \<open>foundBid.status = "cancelled"\<close> in \<open>cancelBid\<close>, and when the bid written to is the
  highest bid, its id is the \<open>bidId\<close> of the call, so \<open>highestBid\<close> is replaced in the
  same call. A highest bid is therefore never changed while an auction points to it, and
  holding it by value in the record gives the same readings as the reference does.
\<close>

record Store =
  auctions :: "(string \<times> Auction) list"
  bids :: "(string \<times> Bid list) list"

definition emptyStore :: Store where
  "emptyStore = \<lparr>auctions = [], bids = []\<rparr>"

text \<open>
  Every failing path of the service shows one toast and returns \<open>null\<close> or \<open>false\<close>.
  The failure value names the toast:
  \<^item> \<open>WalletNotConnected\<close>: "Please connect your wallet first"
  \<^item> \<open>AuctionNotFound\<close>: "Auction not found"
  \<^item> \<open>AuctionNotActive\<close>: "Auction is not active"
  \<^item> \<open>AuctionExpired\<close>: "Auction has ended"
  \<^item> \<open>BidTooLow\<close>: "Bid must be higher than current price of ... SOL"
  \<^item> \<open>PaymentFailed\<close>: "Failed to process bid payment"
  \<^item> \<open>BidNotFound\<close>: "Bid not found"
  \<^item> \<open>CancelOnEndedAuction\<close>: "Cannot cancel bid on ended auction"
\<close>

datatype failure =
    WalletNotConnected
  | AuctionNotFound
  | AuctionNotActive
  | AuctionExpired
  | BidTooLow
  | PaymentFailed
  | BidNotFound
  | CancelOnEndedAuction

text \<open>
  The calls an operation makes to the settlement stubs of \<open>SolanaService\<close>, in order.
  Both stubs only log and return \<open>true\<close>, so a call is recorded with its argument.
\<close>

datatype adapter_call = FinalizeAuction Auction | RefundBid Bid

section \<open>SolanaService.processBidPayment\<close>

text \<open>
  Returns \<open>false\<close> without a public key or signing capability; otherwise the transfer is
  built, signed, sent and confirmed inside \<open>try\<close>, and any throw there gives \<open>false\<close>.
  \<open>chainOk\<close> says whether that block runs to its end.
\<close>

definition processBidPayment :: "Wallet \<Rightarrow> real \<Rightarrow> bool \<Rightarrow> bool" where
  "processBidPayment wallet amt chainOk =
     (if publicKey wallet = None \<or> \<not> signTransaction wallet then False else chainOk)"

section \<open>BiddingService\<close>

subsection \<open>createAuction\<close>

text \<open>
  \<open>uuid\<close> is the value of \<open>crypto.randomUUID()\<close> and \<open>now\<close> that of \<open>Date.now()\<close>.
\<close>

definition createAuction ::
  "Wallet \<Rightarrow> string \<Rightarrow> real \<Rightarrow> real \<Rightarrow> real option \<Rightarrow> string \<Rightarrow> real \<Rightarrow> Store
     \<Rightarrow> (failure + Auction) \<times> Store" where
  "createAuction wallet nft startPrice durationHours reserve uuid now s =
     (case publicKey wallet of
        None \<Rightarrow> (Inl WalletNotConnected, s)
      | Some pk \<Rightarrow>
          if \<not> connected wallet then (Inl WalletNotConnected, s)
          else
            let auction = \<lparr>auction_id = uuid, nftId = nft, seller = pk,
                  startingPrice = startPrice, currentPrice = startPrice,
                  reservePrice = reserve, startTime = now,
                  endTime = now + durationHours * 60 * 60 * 1000,
                  status = AuctionActive, highestBid = None, totalBids = 0\<rparr>
            in (Inr auction,
                s\<lparr>auctions := AList.update uuid auction (auctions s),
                  bids := AList.update uuid [] (bids s)\<rparr>))"

subsection \<open>placeBid\<close>

text \<open>
  \<open>placeBid\<close> has one suspension point, \<open>await SolanaService.processBidPayment\<close>.
  The code before it (lines 85 to 111) is \<open>placeBid_validate\<close>: it reads the store and
  either fails or goes on with the wallet address and the auction it looked up. The code
  after it (lines 117 to 149) is \<open>placeBid_commit\<close>: it runs on the store as it is when
  the payment has returned. \<open>auction\<close> is a reference to the object held by the map, which
  no operation removes, so the commit updates the entry under \<open>auctionId\<close>.
\<close>

definition placeBid_validate ::
  "Wallet \<Rightarrow> string \<Rightarrow> real \<Rightarrow> real \<Rightarrow> Store \<Rightarrow> failure + (string \<times> Auction)" where
  "placeBid_validate wallet auctionId bidAmount now s =
     (case publicKey wallet of
        None \<Rightarrow> Inl WalletNotConnected
      | Some pk \<Rightarrow>
          if \<not> connected wallet then Inl WalletNotConnected
          else
            (case map_of (auctions s) auctionId of
               None \<Rightarrow> Inl AuctionNotFound
             | Some auction \<Rightarrow>
                 if status auction \<noteq> AuctionActive then Inl AuctionNotActive
                 else if now > endTime auction then Inl AuctionExpired
                 else if bidAmount \<le> currentPrice auction then Inl BidTooLow
                 else Inr (pk, auction)))"

definition bidsOf :: "Store \<Rightarrow> string \<Rightarrow> Bid list" where
  "bidsOf s auctionId = (case map_of (bids s) auctionId of None \<Rightarrow> [] | Some bs \<Rightarrow> bs)"

definition mutateAuction :: "string \<Rightarrow> (Auction \<Rightarrow> Auction) \<Rightarrow> Store \<Rightarrow> Store" where
  "mutateAuction auctionId f s =
     (case map_of (auctions s) auctionId of
        None \<Rightarrow> s
      | Some auction \<Rightarrow> s\<lparr>auctions := AList.update auctionId (f auction) (auctions s)\<rparr>)"

definition placeBid_commit ::
  "string \<Rightarrow> Auction \<Rightarrow> string \<Rightarrow> real \<Rightarrow> bool \<Rightarrow> string \<Rightarrow> real \<Rightarrow> Store
     \<Rightarrow> (failure + Bid) \<times> Store" where
  "placeBid_commit pk auction auctionId bidAmount success uuid now s =
     (if \<not> success then (Inl PaymentFailed, s)
      else
        let bid = \<lparr>bid_id = uuid, bid_nftId = nftId auction, bidder = pk,
              amount = bidAmount, timestamp = now, bid_status = BidActive\<rparr>;
            s1 = mutateAuction auctionId
                   (\<lambda>a. a\<lparr>currentPrice := bidAmount, highestBid := Some bid,
                           totalBids := Suc (totalBids a)\<rparr>) s;
            auctionBids = bidsOf s1 auctionId @ [bid]
        in (Inr bid, s1\<lparr>bids := AList.update auctionId auctionBids (bids s1)\<rparr>))"

text \<open>
  A call that nothing interleaves with: validation and commit see the same store.
  \<open>now\<close> and \<open>ts\<close> are the two readings of \<open>Date.now()\<close>, \<open>chainOk\<close> the outcome of the
  transfer and \<open>uuid\<close> the id drawn for the bid.
\<close>

definition placeBid ::
  "Wallet \<Rightarrow> string \<Rightarrow> real \<Rightarrow> real \<Rightarrow> bool \<Rightarrow> string \<Rightarrow> real \<Rightarrow> Store
     \<Rightarrow> (failure + Bid) \<times> Store" where
  "placeBid wallet auctionId bidAmount now chainOk uuid ts s =
     (case placeBid_validate wallet auctionId bidAmount now s of
        Inl e \<Rightarrow> (Inl e, s)
      | Inr (pk, auction) \<Rightarrow>
          placeBid_commit pk auction auctionId bidAmount
            (processBidPayment wallet bidAmount chainOk) uuid ts s)"

subsection \<open>endAuction\<close>

text \<open>
  The settlement branch of lines 175 to 189. \<open>auction.reservePrice\<close> is used as a
  condition, so it counts as absent when it is \<open>undefined\<close> and also when it is \<open>0\<close>.
\<close>

definition settle :: "Auction \<Rightarrow> adapter_call list" where
  "settle auction =
     (case highestBid auction of
        None \<Rightarrow> []
      | Some hb \<Rightarrow>
          (case reservePrice auction of
             None \<Rightarrow> [RefundBid hb]
           | Some r \<Rightarrow>
               if r \<noteq> 0 \<and> amount hb \<ge> r then [FinalizeAuction auction]
               else [RefundBid hb]))"

definition endAuction :: "string \<Rightarrow> Store \<Rightarrow> (failure + adapter_call list) \<times> Store" where
  "endAuction auctionId s =
     (case map_of (auctions s) auctionId of
        None \<Rightarrow> (Inl AuctionNotFound, s)
      | Some auction \<Rightarrow>
          if status auction \<noteq> AuctionActive then (Inl AuctionNotActive, s)
          else
            let ended = auction\<lparr>status := AuctionEnded\<rparr>
            in (Inr (settle ended),
                s\<lparr>auctions := AList.update auctionId ended (auctions s)\<rparr>))"

subsection \<open>Read accessors\<close>

definition getAuction :: "Store \<Rightarrow> string \<Rightarrow> Auction option" where
  "getAuction s auctionId = map_of (auctions s) auctionId"

definition getAllAuctions :: "Store \<Rightarrow> Auction list" where
  "getAllAuctions s = map snd (auctions s)"

definition getActiveAuctions :: "Store \<Rightarrow> Auction list" where
  "getActiveAuctions s = filter (\<lambda>a. status a = AuctionActive) (map snd (auctions s))"

definition getAuctionBids :: "Store \<Rightarrow> string \<Rightarrow> Bid list" where
  "getAuctionBids s auctionId = bidsOf s auctionId"

text \<open>
  \<open>getUserBids\<close> walks the values of the \<open>bids\<close> map and pushes the matching bids of each
  list onto the result.
\<close>

fun collectUserBids :: "string \<Rightarrow> (string \<times> Bid list) list \<Rightarrow> Bid list \<Rightarrow> Bid list" where
  "collectUserBids userAddress [] userBids = userBids"
| "collectUserBids userAddress ((k, bs) # rest) userBids =
     collectUserBids userAddress rest
       (userBids @ filter (\<lambda>bid. bidder bid = userAddress \<and> bid_status bid = BidActive) bs)"

definition getUserBids :: "Store \<Rightarrow> string \<Rightarrow> Bid list" where
  "getUserBids s userAddress = collectUserBids userAddress (bids s) []"

subsection \<open>cancelBid\<close>

text \<open>
  The search loop of lines 256 to 265: the first list, in map order, that holds a bid
  with the given id and bidder, and the first such bid in it.
\<close>

fun findBid :: "(string \<times> Bid list) list \<Rightarrow> string \<Rightarrow> string \<Rightarrow> (string \<times> Bid) option" where
  "findBid [] bidId pk = None"
| "findBid ((auctionIdKey, bs) # rest) bidId pk =
     (case find (\<lambda>bid. bid_id bid = bidId \<and> bidder bid = pk) bs of
        Some foundBid \<Rightarrow> Some (auctionIdKey, foundBid)
      | None \<Rightarrow> findBid rest bidId pk)"

text \<open>
  \<open>foundBid.status = "cancelled"\<close> writes to the object that \<open>find\<close> returned, the first
  match of its list; the list keeps its length and order.
\<close>

fun markCancelled :: "string \<Rightarrow> string \<Rightarrow> Bid list \<Rightarrow> Bid list" where
  "markCancelled bidId pk [] = []"
| "markCancelled bidId pk (bid # rest) =
     (if bid_id bid = bidId \<and> bidder bid = pk
      then bid\<lparr>bid_status := BidCancelled\<rparr> # rest
      else bid # markCancelled bidId pk rest)"

text \<open>
  \<open>activeBids.reduce((prev, current) => prev.amount > current.amount ? prev : current)\<close>
  on a non-empty array: the accumulator starts as the first element. The service guards
  the call with \<open>activeBids.length > 0\<close>; on an empty array \<open>reduce\<close> throws, which is
  \<open>None\<close> here.
\<close>

fun reduceHighest :: "Bid list \<Rightarrow> Bid option" where
  "reduceHighest [] = None"
| "reduceHighest (b # bs) =
     Some (foldl (\<lambda>prev current. if amount prev > amount current then prev else current) b bs)"

definition recomputeHighest :: "Bid list \<Rightarrow> Auction \<Rightarrow> Auction" where
  "recomputeHighest auctionBids auction =
     (let activeBids = filter (\<lambda>bid. bid_status bid = BidActive) auctionBids
      in case reduceHighest activeBids of
           Some newHighestBid \<Rightarrow>
             auction\<lparr>highestBid := Some newHighestBid, currentPrice := amount newHighestBid\<rparr>
         | None \<Rightarrow>
             auction\<lparr>highestBid := None, currentPrice := startingPrice auction\<rparr>)"

text \<open>
  The test \<open>!foundBid || !auctionId\<close> also fails on an empty key, since the empty string
  is falsy. \<open>auction.highestBid?.id === bidId\<close> is false when there is no highest bid.
\<close>

definition cancelBid :: "Wallet \<Rightarrow> string \<Rightarrow> Store \<Rightarrow> (failure + adapter_call list) \<times> Store" where
  "cancelBid wallet bidId s =
     (case publicKey wallet of
        None \<Rightarrow> (Inl WalletNotConnected, s)
      | Some pk \<Rightarrow>
          if \<not> connected wallet then (Inl WalletNotConnected, s)
          else
            (case findBid (bids s) bidId pk of
               None \<Rightarrow> (Inl BidNotFound, s)
             | Some (auctionId, foundBid) \<Rightarrow>
                 if auctionId = [] then (Inl BidNotFound, s)
                 else
                   (case map_of (auctions s) auctionId of
                      None \<Rightarrow> (Inl CancelOnEndedAuction, s)
                    | Some auction \<Rightarrow>
                        if status auction \<noteq> AuctionActive then (Inl CancelOnEndedAuction, s)
                        else
                          let auctionBids = markCancelled bidId pk (bidsOf s auctionId);
                              s1 = s\<lparr>bids := AList.update auctionId auctionBids (bids s)\<rparr>;
                              isHighest = (case highestBid auction of
                                             None \<Rightarrow> False
                                           | Some hb \<Rightarrow> bid_id hb = bidId)
                          in (Inr [RefundBid foundBid],
                              if isHighest
                              then s1\<lparr>auctions := AList.update auctionId
                                         (recomputeHighest auctionBids auction) (auctions s1)\<rparr>
                              else s1))))"

section \<open>Sequences of operations\<close>

text \<open>
  One call of the service with everything it reads from its environment: the wallet, the
  clock readings, the drawn ids and the outcome of the transfer.
\<close>

datatype op =
    CreateAuction Wallet string real real "real option" string real
  | PlaceBid Wallet string real real bool string real
  | EndAuction string
  | CancelBid Wallet string

fun exec :: "op \<Rightarrow> Store \<Rightarrow> Store" where
  "exec (CreateAuction wallet nft startPrice durationHours reserve uuid now) s =
     snd (createAuction wallet nft startPrice durationHours reserve uuid now s)"
| "exec (PlaceBid wallet auctionId bidAmount now chainOk uuid ts) s =
     snd (placeBid wallet auctionId bidAmount now chainOk uuid ts s)"
| "exec (EndAuction auctionId) s = snd (endAuction auctionId s)"
| "exec (CancelBid wallet bidId) s = snd (cancelBid wallet bidId s)"

fun run :: "op list \<Rightarrow> Store \<Rightarrow> Store" where
  "run [] s = s"
| "run (c # cs) s = run cs (exec c s)"

text \<open>Whether a call draws the given id for a new auction.\<close>

fun drawsAuctionId :: "op \<Rightarrow> string \<Rightarrow> bool" where
  "drawsAuctionId (CreateAuction wallet nft startPrice durationHours reserve uuid now) k =
     (uuid = k)"
| "drawsAuctionId (PlaceBid wallet auctionId bidAmount now chainOk uuid ts) k = False"
| "drawsAuctionId (EndAuction auctionId) k = False"
| "drawsAuctionId (CancelBid wallet bidId) k = False"

subsection \<open>Two calls of placeBid suspended at the same time\<close>

text \<open>
  The runtime is single-threaded: a call runs until its \<open>await\<close>, and another call may
  start while the first waits for its payment. \<open>placeBid_resume\<close> is what a call does
  once its validation has an outcome: a failed validation has already returned, a passed
  one commits on the store of that moment. In \<open>placeBid_race\<close> both calls validate on the
  same store before either payment returns; \<open>firstConfirmsFirst\<close> says whose payment
  returns first. Both payments succeed.
\<close>

definition placeBid_resume ::
  "failure + (string \<times> Auction) \<Rightarrow> string \<Rightarrow> real \<Rightarrow> bool \<Rightarrow> string \<Rightarrow> real \<Rightarrow> Store
     \<Rightarrow> (failure + Bid) \<times> Store" where
  "placeBid_resume v auctionId bidAmount success uuid ts s =
     (case v of
        Inl e \<Rightarrow> (Inl e, s)
      | Inr (pk, auction) \<Rightarrow> placeBid_commit pk auction auctionId bidAmount success uuid ts s)"

definition placeBid_race ::
  "string \<Rightarrow> real \<Rightarrow> Wallet \<Rightarrow> real \<Rightarrow> string \<Rightarrow> Wallet \<Rightarrow> real \<Rightarrow> string \<Rightarrow> bool \<Rightarrow> Store
     \<Rightarrow> (failure + Bid) \<times> (failure + Bid) \<times> Store" where
  "placeBid_race auctionId now wallet1 amount1 uuid1 wallet2 amount2 uuid2 firstConfirmsFirst s =
     (let v1 = placeBid_validate wallet1 auctionId amount1 now s;
          v2 = placeBid_validate wallet2 auctionId amount2 now s
      in if firstConfirmsFirst
         then
           (let (r1, s1) = placeBid_resume v1 auctionId amount1 True uuid1 now s;
                (r2, s2) = placeBid_resume v2 auctionId amount2 True uuid2 now s1
            in (r1, r2, s2))
         else
           (let (r2, s1) = placeBid_resume v2 auctionId amount2 True uuid2 now s;
                (r1, s2) = placeBid_resume v1 auctionId amount1 True uuid1 now s1
            in (r1, r2, s2)))"

section \<open>The price invariant\<close>

text \<open>
  What every sequence of calls keeps true: no auction is priced below its starting price,
  and no bid in its list is.
\<close>

definition priceInv :: "Store \<Rightarrow> bool" where
  "priceInv s =
     (\<forall>k a. map_of (auctions s) k = Some a \<longrightarrow>
        startingPrice a \<le> currentPrice a
        \<and> (\<forall>b \<in> set (bidsOf s k). startingPrice a \<le> amount b))"

section \<open>Example data\<close>

definition alice :: Wallet where
  "alice = \<lparr>connected = True, publicKey = Some ''alice'', signTransaction = True\<rparr>"

definition bob :: Wallet where
  "bob = \<lparr>connected = True, publicKey = Some ''bob'', signTransaction = True\<rparr>"

definition carol :: Wallet where
  "carol = \<lparr>connected = True, publicKey = Some ''carol'', signTransaction = True\<rparr>"

definition mkBid :: "string \<Rightarrow> string \<Rightarrow> real \<Rightarrow> bid_state \<Rightarrow> Bid" where
  "mkBid i who amt st =
     \<lparr>bid_id = i, bid_nftId = ''nft1'', bidder = who, amount = amt, timestamp = 10,
      bid_status = st\<rparr>"

definition mkAuction :: "real \<Rightarrow> real option \<Rightarrow> auction_state \<Rightarrow> Bid option \<Rightarrow> nat \<Rightarrow> Auction" where
  "mkAuction cur reserve st hb n =
     \<lparr>auction_id = ''a1'', nftId = ''nft1'', seller = ''alice'', startingPrice = 1,
      currentPrice = cur, reservePrice = reserve, startTime = 0, endTime = 86400000,
      status = st, highestBid = hb, totalBids = n\<rparr>"

definition mkStore :: "Auction \<Rightarrow> Bid list \<Rightarrow> Store" where
  "mkStore a bs = \<lparr>auctions = [(''a1'', a)], bids = [(''a1'', bs)]\<rparr>"

section \<open>Unfolding the operations on concrete data\<close>

lemmas demo_defs = alice_def bob_def carol_def mkBid_def mkAuction_def mkStore_def emptyStore_def

lemmas op_defs = createAuction_def placeBid_def placeBid_validate_def placeBid_commit_def
  processBidPayment_def endAuction_def settle_def cancelBid_def bidsOf_def mutateAuction_def
  recomputeHighest_def getUserBids_def placeBid_resume_def placeBid_race_def Let_def

section \<open>endAuction: settlement\<close>

text \<open>
  Claim C1. On an active auction with a highest bid, \<open>endAuction\<close> is to call
  \<open>finalizeAuction\<close> whenever no reserve price is set or the highest bid reaches it, and
  \<open>refundBid\<close> only when a reserve price is set and not reached. The code does otherwise
  without a reserve price: for an active auction with \<open>reservePrice\<close> undefined and a
  highest bid of 3, \<open>endAuction\<close> sets the status to ended, returns \<open>true\<close> and calls
  \<open>refundBid\<close> on the highest bid; \<open>finalizeAuction\<close> is not called.
\<close>

theorem endAuction_without_reserve_refunds:
  "endAuction ''a1''
     (mkStore (mkAuction 3 None AuctionActive (Some (mkBid ''b1'' ''bob'' 3 BidActive)) 1)
        [mkBid ''b1'' ''bob'' 3 BidActive])
   = (Inr [RefundBid (mkBid ''b1'' ''bob'' 3 BidActive)],
      mkStore (mkAuction 3 None AuctionEnded (Some (mkBid ''b1'' ''bob'' 3 BidActive)) 1)
        [mkBid ''b1'' ''bob'' 3 BidActive])"
  by (simp add: demo_defs op_defs)

section \<open>placeBid\<close>

text \<open>
  Claim C4. A failing \<open>placeBid\<close> leaves the store as it was: whenever the call returns
  a failure, the auctions and the bid lists are the ones it started from. It fails exactly
  when the wallet is not connected, the auction is unknown, not active or expired, the bid
  is not above the current price, or the payment fails. Every path returns a value.
\<close>

theorem placeBid_failure_atomic:
  "(\<forall>e. fst (placeBid w k amt now ok uuid ts s) = Inl e \<longrightarrow>
       snd (placeBid w k amt now ok uuid ts s) = s)
   \<and> (isl (fst (placeBid w k amt now ok uuid ts s)) \<longleftrightarrow>
        \<not> connected w \<or> publicKey w = None \<or> map_of (auctions s) k = None
        \<or> (\<exists>a. map_of (auctions s) k = Some a
              \<and> (status a \<noteq> AuctionActive \<or> now > endTime a \<or> amt \<le> currentPrice a))
        \<or> \<not> processBidPayment w amt ok)"
  by (auto simp: placeBid_def placeBid_validate_def placeBid_commit_def Let_def
           split: option.splits sum.splits if_splits prod.splits)

theorem placeBid_failure_atomic_witness:
  "fst (placeBid bob ''a1'' 1.2 5 True ''b2'' 6
          (mkStore (mkAuction 1.5 None AuctionActive (Some (mkBid ''b1'' ''carol'' 1.5 BidActive)) 1)
             [mkBid ''b1'' ''carol'' 1.5 BidActive])) = Inl BidTooLow
   \<and> snd (placeBid bob ''a1'' 1.2 5 True ''b2'' 6
          (mkStore (mkAuction 1.5 None AuctionActive (Some (mkBid ''b1'' ''carol'' 1.5 BidActive)) 1)
             [mkBid ''b1'' ''carol'' 1.5 BidActive]))
      = mkStore (mkAuction 1.5 None AuctionActive (Some (mkBid ''b1'' ''carol'' 1.5 BidActive)) 1)
             [mkBid ''b1'' ''carol'' 1.5 BidActive]"
  using placeBid_failure_atomic [of bob "''a1''" "1.2" 5 True "''b2''" 6
          "mkStore (mkAuction 1.5 None AuctionActive (Some (mkBid ''b1'' ''carol'' 1.5 BidActive)) 1)
             [mkBid ''b1'' ''carol'' 1.5 BidActive]"]
  by (simp add: demo_defs op_defs)

text \<open>
  Claim C5. On a known auction, \<open>placeBid\<close> fails with \<open>BidTooLow\<close> exactly when the
  earlier checks pass (wallet connected, auction active and not expired) and the amount is
  at most the current price, so a tie is rejected. A bid that \<open>placeBid\<close> returns carries
  the offered amount, which is strictly above the current price before the call and is
  the current price after it.
\<close>

theorem placeBid_strictly_higher:
  assumes "map_of (auctions s) k = Some a"
  shows "(fst (placeBid w k amt now ok uuid ts s) = Inl BidTooLow \<longleftrightarrow>
            connected w \<and> publicKey w \<noteq> None \<and> status a = AuctionActive
            \<and> \<not> now > endTime a \<and> amt \<le> currentPrice a)
         \<and> (\<forall>b s'. placeBid w k amt now ok uuid ts s = (Inr b, s') \<longrightarrow>
               amount b = amt \<and> currentPrice a < amount b
               \<and> map_option currentPrice (map_of (auctions s') k) = Some (amount b))"
  using assms
  by (auto simp: placeBid_def placeBid_validate_def placeBid_commit_def Let_def
                 mutateAuction_def AList.update_conv'
           split: option.splits sum.splits if_splits prod.splits)

theorem placeBid_strictly_higher_witness:
  "map_of (auctions (mkStore (mkAuction 1.5 None AuctionActive
                               (Some (mkBid ''b1'' ''carol'' 1.5 BidActive)) 1)
                       [mkBid ''b1'' ''carol'' 1.5 BidActive])) ''a1''
     = Some (mkAuction 1.5 None AuctionActive (Some (mkBid ''b1'' ''carol'' 1.5 BidActive)) 1)
   \<and> fst (placeBid bob ''a1'' 1.5 5 True ''b2'' 6
            (mkStore (mkAuction 1.5 None AuctionActive
                        (Some (mkBid ''b1'' ''carol'' 1.5 BidActive)) 1)
               [mkBid ''b1'' ''carol'' 1.5 BidActive])) = Inl BidTooLow
   \<and> fst (placeBid bob ''a1'' 1.6 5 True ''b2'' 6
            (mkStore (mkAuction 1.5 None AuctionActive
                        (Some (mkBid ''b1'' ''carol'' 1.5 BidActive)) 1)
               [mkBid ''b1'' ''carol'' 1.5 BidActive])) \<noteq> Inl BidTooLow"
proof -
  have h: "map_of (auctions (mkStore (mkAuction 1.5 None AuctionActive
                               (Some (mkBid ''b1'' ''carol'' 1.5 BidActive)) 1)
                       [mkBid ''b1'' ''carol'' 1.5 BidActive])) ''a1''
     = Some (mkAuction 1.5 None AuctionActive (Some (mkBid ''b1'' ''carol'' 1.5 BidActive)) 1)"
    by (simp add: demo_defs)
  from placeBid_strictly_higher [OF h, of bob "1.5" 5 True "''b2''" 6]
       placeBid_strictly_higher [OF h, of bob "1.6" 5 True "''b2''" 6] h
  show ?thesis by (simp add: demo_defs)
qed

section \<open>The price never falls below the starting price\<close>

lemma priceInvD:
  assumes "priceInv s" "map_of (auctions s) k = Some a"
  shows "startingPrice a \<le> currentPrice a"
    and "b \<in> set (bidsOf s k) \<Longrightarrow> startingPrice a \<le> amount b"
  using assms unfolding priceInv_def by blast+

lemma markCancelled_amount:
  "b \<in> set (markCancelled i p bs) \<Longrightarrow> \<exists>b' \<in> set bs. amount b' = amount b"
  by (induction bs) (auto split: if_splits)

lemma foldl_pick_mem:
  "foldl (\<lambda>prev current. if amount prev > amount current then prev else current) b bs
     \<in> set (b # bs)"
  by (induction bs arbitrary: b) (auto split: if_splits)

lemma reduceHighest_mem: "reduceHighest bs = Some b \<Longrightarrow> b \<in> set bs"
  using foldl_pick_mem by (cases bs) auto

lemma recomputeHighest_fields:
  "startingPrice (recomputeHighest bs a) = startingPrice a"
  "status (recomputeHighest bs a) = status a"
  by (simp_all add: recomputeHighest_def Let_def split: option.splits)

lemma recomputeHighest_price:
  assumes "\<forall>b \<in> set bs. startingPrice a \<le> amount b"
  shows "startingPrice a \<le> currentPrice (recomputeHighest bs a)"
proof (cases "reduceHighest (filter (\<lambda>bid. bid_status bid = BidActive) bs)")
  case None
  then show ?thesis by (simp add: recomputeHighest_def)
next
  case (Some nb)
  then have "nb \<in> set bs" using reduceHighest_mem by fastforce
  with assms Some show ?thesis by (simp add: recomputeHighest_def)
qed

lemma priceInv_createAuction:
  "priceInv s \<Longrightarrow> priceInv (snd (createAuction w nft sp d r uuid now s))"
  by (auto simp: priceInv_def createAuction_def Let_def bidsOf_def AList.update_conv'
           split: option.splits if_splits)

lemma priceInv_placeBid:
  "priceInv s \<Longrightarrow> priceInv (snd (placeBid w k amt now ok uuid ts s))"
  unfolding priceInv_def placeBid_def placeBid_validate_def placeBid_commit_def
    mutateAuction_def bidsOf_def Let_def
  by (auto simp: AList.update_conv' split: option.splits if_splits) fastforce+

lemma priceInv_endAuction:
  "priceInv s \<Longrightarrow> priceInv (snd (endAuction k s))"
  by (auto simp: priceInv_def endAuction_def Let_def bidsOf_def AList.update_conv'
           split: option.splits if_splits)

lemma priceInv_cancelBid:
  assumes "priceInv s"
  shows "priceInv (snd (cancelBid w i s))"
proof (cases "\<exists>calls. fst (cancelBid w i s) = Inr calls")
  case False
  then have "snd (cancelBid w i s) = s"
    by (auto simp: cancelBid_def Let_def split: option.splits if_splits prod.splits)
  with assms show ?thesis by simp
next
  case True
  then obtain pk k fb a where pk: "publicKey w = Some pk"
    and fb: "findBid (bids s) i pk = Some (k, fb)"
    and a: "map_of (auctions s) k = Some a"
    by (auto simp: cancelBid_def Let_def split: option.splits if_splits prod.splits)
  from True pk fb a have act: "status a = AuctionActive" "connected w" "k \<noteq> []"
    by (auto simp: cancelBid_def Let_def split: option.splits if_splits prod.splits)
  define bs' where "bs' = markCancelled i pk (bidsOf s k)"
  have bs'_ok: "\<forall>b \<in> set bs'. startingPrice a \<le> amount b"
  proof
    fix b assume "b \<in> set bs'"
    then obtain b' where "b' \<in> set (bidsOf s k)" "amount b' = amount b"
      unfolding bs'_def using markCancelled_amount by blast
    with priceInvD(2)[OF assms a, of b'] show "startingPrice a \<le> amount b"
      by simp
  qed
  define a' where "a' = (if (case highestBid a of None \<Rightarrow> False | Some hb \<Rightarrow> bid_id hb = i)
                          then recomputeHighest bs' a else a)"
  have a'_ok: "startingPrice a' = startingPrice a" "startingPrice a \<le> currentPrice a'"
    using recomputeHighest_price[OF bs'_ok] priceInvD(1)[OF assms a]
    by (auto simp: a'_def recomputeHighest_fields)
  have s': "map_of (auctions (snd (cancelBid w i s))) = (map_of (auctions s))(k \<mapsto> a')"
       "map_of (bids (snd (cancelBid w i s))) = (map_of (bids s))(k \<mapsto> bs')"
    using pk fb a act
    by (auto simp: cancelBid_def Let_def a'_def bs'_def AList.update_conv' map_upd_triv
             split: option.splits)
  show ?thesis
    unfolding priceInv_def bidsOf_def s'
    using assms a'_ok bs'_ok
    by (auto simp: priceInv_def bidsOf_def split: option.splits)
qed

lemma priceInv_exec: "priceInv s \<Longrightarrow> priceInv (exec c s)"
  by (cases c)
     (simp_all add: priceInv_createAuction priceInv_placeBid priceInv_endAuction
        priceInv_cancelBid)

lemma priceInv_run: "priceInv s \<Longrightarrow> priceInv (run cs s)"
  by (induction cs arbitrary: s) (simp_all add: priceInv_exec)

lemma priceInv_emptyStore: "priceInv emptyStore"
  by (simp add: priceInv_def emptyStore_def)

text \<open>
  Claim C2. In every store reached from the empty one by a sequence of \<open>createAuction\<close>,
  \<open>placeBid\<close>, \<open>endAuction\<close> and \<open>cancelBid\<close> calls, each running to its end before the
  next starts, every auction has \<open>currentPrice \<ge> startingPrice\<close>. The sequence is
  arbitrary, so this holds after every call of it.
\<close>

theorem currentPrice_ge_startingPrice:
  "map_of (auctions (run cs emptyStore)) k = Some a \<Longrightarrow> startingPrice a \<le> currentPrice a"
  using priceInv_run [OF priceInv_emptyStore, of cs] by (simp add: priceInv_def)

theorem currentPrice_ge_startingPrice_witness:
  "map_of (auctions (run [CreateAuction alice ''nft1'' 1 24 None ''a1'' 0,
              PlaceBid bob ''a1'' 2 5 True ''b1'' 6,
              PlaceBid carol ''a1'' 3 7 True ''b2'' 8,
              CancelBid carol ''b2''] emptyStore)) ''a1''
     = Some (mkAuction 2 None AuctionActive (Some (mkBid ''b1'' ''bob'' 2 BidActive\<lparr>timestamp := 6\<rparr>)) 2)
   \<and> startingPrice (mkAuction 2 None AuctionActive (Some (mkBid ''b1'' ''bob'' 2 BidActive\<lparr>timestamp := 6\<rparr>)) 2)
       \<le> currentPrice (mkAuction 2 None AuctionActive (Some (mkBid ''b1'' ''bob'' 2 BidActive\<lparr>timestamp := 6\<rparr>)) 2)"
proof -
  have h: "map_of (auctions (run [CreateAuction alice ''nft1'' 1 24 None ''a1'' 0,
              PlaceBid bob ''a1'' 2 5 True ''b1'' 6,
              PlaceBid carol ''a1'' 3 7 True ''b2'' 8,
              CancelBid carol ''b2''] emptyStore)) ''a1''
     = Some (mkAuction 2 None AuctionActive (Some (mkBid ''b1'' ''bob'' 2 BidActive\<lparr>timestamp := 6\<rparr>)) 2)"
    by (simp add: demo_defs op_defs)
  from currentPrice_ge_startingPrice [OF h] h show ?thesis by simp
qed

section \<open>Ended and cancelled auctions\<close>

lemma createAuction_frame:
  "uuid \<noteq> k \<Longrightarrow>
     map_of (auctions (snd (createAuction w nft sp d r uuid now s))) k = map_of (auctions s) k
     \<and> map_of (bids (snd (createAuction w nft sp d r uuid now s))) k = map_of (bids s) k"
  by (simp add: createAuction_def Let_def AList.update_conv' split: option.splits)

lemma placeBid_frame:
  "k' \<noteq> k \<Longrightarrow>
     map_of (auctions (snd (placeBid w k' amt now ok uuid ts s))) k = map_of (auctions s) k
     \<and> map_of (bids (snd (placeBid w k' amt now ok uuid ts s))) k = map_of (bids s) k"
  by (simp add: placeBid_def placeBid_validate_def placeBid_commit_def mutateAuction_def Let_def
        AList.update_conv' split: option.splits sum.splits prod.splits)

lemma placeBid_inactive:
  "map_of (auctions s) k = Some a \<Longrightarrow> status a \<noteq> AuctionActive \<Longrightarrow>
     isl (fst (placeBid w k amt now ok uuid ts s)) \<and> snd (placeBid w k amt now ok uuid ts s) = s"
  by (simp add: placeBid_def placeBid_validate_def split: option.splits)

lemma endAuction_frame:
  "k' \<noteq> k \<Longrightarrow>
     map_of (auctions (snd (endAuction k' s))) k = map_of (auctions s) k
     \<and> map_of (bids (snd (endAuction k' s))) k = map_of (bids s) k"
  by (simp add: endAuction_def Let_def AList.update_conv' split: option.splits)

lemma endAuction_inactive:
  "map_of (auctions s) k = Some a \<Longrightarrow> status a \<noteq> AuctionActive \<Longrightarrow>
     endAuction k s = (Inl AuctionNotActive, s)"
  by (simp add: endAuction_def)

lemma cancelBid_inactive:
  "map_of (auctions s) k = Some a \<Longrightarrow> status a \<noteq> AuctionActive \<Longrightarrow>
   publicKey w = Some pk \<Longrightarrow> findBid (bids s) i pk = Some (k, fb) \<Longrightarrow>
     isl (fst (cancelBid w i s)) \<and> snd (cancelBid w i s) = s"
  by (simp add: cancelBid_def)

lemma cancelBid_frame:
  assumes "map_of (auctions s) k = Some a" "status a \<noteq> AuctionActive"
  shows "map_of (auctions (snd (cancelBid w i s))) k = Some a
     \<and> map_of (bids (snd (cancelBid w i s))) k = map_of (bids s) k"
proof (cases "\<exists>pk fb. publicKey w = Some pk \<and> findBid (bids s) i pk = Some (k, fb)")
  case True
  with assms cancelBid_inactive show ?thesis by metis
next
  case False
  with assms show ?thesis
    by (auto simp: cancelBid_def Let_def AList.update_conv'
             split: option.splits prod.splits)
qed

lemma exec_frame:
  assumes "map_of (auctions s) k = Some a" "status a \<noteq> AuctionActive" "\<not> drawsAuctionId c k"
  shows "map_of (auctions (exec c s)) k = Some a
     \<and> map_of (bids (exec c s)) k = map_of (bids s) k"
proof (cases c)
  case (CreateAuction w nft sp d r uuid now)
  with assms createAuction_frame[of uuid k] show ?thesis by simp
next
  case (PlaceBid w k' amt now ok uuid ts)
  show ?thesis
  proof (cases "k' = k")
    case True
    with PlaceBid assms placeBid_inactive[of s k a] show ?thesis by simp
  next
    case False
    with PlaceBid assms placeBid_frame[of k' k] show ?thesis by simp
  qed
next
  case (EndAuction k')
  show ?thesis
  proof (cases "k' = k")
    case True
    with EndAuction assms endAuction_inactive[of s k a] show ?thesis by simp
  next
    case False
    with EndAuction assms endAuction_frame[of k' k] show ?thesis by simp
  qed
next
  case (CancelBid w i)
  with assms cancelBid_frame[of s k a] show ?thesis by simp
qed

lemma run_frame:
  "map_of (auctions s) k = Some a \<Longrightarrow> status a \<noteq> AuctionActive \<Longrightarrow>
   \<forall>c \<in> set cs. \<not> drawsAuctionId c k \<Longrightarrow>
     map_of (auctions (run cs s)) k = Some a \<and> map_of (bids (run cs s)) k = map_of (bids s) k"
proof (induction cs arbitrary: s)
  case Nil
  then show ?case by simp
next
  case (Cons c cs)
  from Cons.prems have step: "map_of (auctions (exec c s)) k = Some a"
      "map_of (bids (exec c s)) k = map_of (bids s) k"
    using exec_frame[of s k a c] by simp_all
  from Cons.IH[OF step(1) Cons.prems(2)] Cons.prems(3) step(2) show ?case by simp
qed

text \<open>
  Claim C3. An auction whose status is ended or cancelled stays as it is. A \<open>placeBid\<close>
  or \<open>endAuction\<close> on it fails, and so does a \<open>cancelBid\<close> whose bid is found in its
  list; each of them leaves the whole store unchanged. After any sequence of calls the
  auction record, and with it the status, and its bid list are the same, as long as
  \<open>crypto.randomUUID()\<close> does not draw the id of that auction for a new one.
\<close>

theorem ended_auction_is_terminal:
  assumes "map_of (auctions s) k = Some a" and "status a \<noteq> AuctionActive"
  shows "isl (fst (placeBid w k amt now ok uuid ts s))
       \<and> snd (placeBid w k amt now ok uuid ts s) = s
       \<and> endAuction k s = (Inl AuctionNotActive, s)
       \<and> (publicKey w = Some pk \<and> findBid (bids s) i pk = Some (k, fb) \<longrightarrow>
            isl (fst (cancelBid w i s)) \<and> snd (cancelBid w i s) = s)
       \<and> ((\<forall>c \<in> set cs. \<not> drawsAuctionId c k) \<longrightarrow>
            map_of (auctions (run cs s)) k = Some a
            \<and> map_of (bids (run cs s)) k = map_of (bids s) k)"
  using placeBid_inactive[OF assms] endAuction_inactive[OF assms]
    cancelBid_inactive[OF assms] run_frame[OF assms]
  by blast

theorem ended_auction_is_terminal_witness:
  "map_of (auctions (mkStore (mkAuction 3 (Some 5) AuctionEnded
                               (Some (mkBid ''b1'' ''bob'' 3 BidActive)) 1)
                       [mkBid ''b1'' ''bob'' 3 BidActive])) ''a1''
     = Some (mkAuction 3 (Some 5) AuctionEnded (Some (mkBid ''b1'' ''bob'' 3 BidActive)) 1)
   \<and> status (mkAuction 3 (Some 5) AuctionEnded (Some (mkBid ''b1'' ''bob'' 3 BidActive)) 1)
       \<noteq> AuctionActive
   \<and> isl (fst (placeBid bob ''a1'' 4 5 True ''b2'' 6
            (mkStore (mkAuction 3 (Some 5) AuctionEnded
                        (Some (mkBid ''b1'' ''bob'' 3 BidActive)) 1)
               [mkBid ''b1'' ''bob'' 3 BidActive])))
   \<and> endAuction ''a1''
        (mkStore (mkAuction 3 (Some 5) AuctionEnded (Some (mkBid ''b1'' ''bob'' 3 BidActive)) 1)
           [mkBid ''b1'' ''bob'' 3 BidActive])
       = (Inl AuctionNotActive,
          mkStore (mkAuction 3 (Some 5) AuctionEnded (Some (mkBid ''b1'' ''bob'' 3 BidActive)) 1)
            [mkBid ''b1'' ''bob'' 3 BidActive])
   \<and> snd (cancelBid bob ''b1''
        (mkStore (mkAuction 3 (Some 5) AuctionEnded (Some (mkBid ''b1'' ''bob'' 3 BidActive)) 1)
           [mkBid ''b1'' ''bob'' 3 BidActive]))
       = mkStore (mkAuction 3 (Some 5) AuctionEnded (Some (mkBid ''b1'' ''bob'' 3 BidActive)) 1)
            [mkBid ''b1'' ''bob'' 3 BidActive]
   \<and> map_of (auctions (run [PlaceBid carol ''a1'' 4 5 True ''b2'' 6, CancelBid bob ''b1'',
                             EndAuction ''a1'']
        (mkStore (mkAuction 3 (Some 5) AuctionEnded (Some (mkBid ''b1'' ''bob'' 3 BidActive)) 1)
           [mkBid ''b1'' ''bob'' 3 BidActive]))) ''a1''
       = Some (mkAuction 3 (Some 5) AuctionEnded (Some (mkBid ''b1'' ''bob'' 3 BidActive)) 1)"
proof -
  have h1: "map_of (auctions (mkStore (mkAuction 3 (Some 5) AuctionEnded
                               (Some (mkBid ''b1'' ''bob'' 3 BidActive)) 1)
                       [mkBid ''b1'' ''bob'' 3 BidActive])) ''a1''
     = Some (mkAuction 3 (Some 5) AuctionEnded (Some (mkBid ''b1'' ''bob'' 3 BidActive)) 1)"
    by (simp add: demo_defs)
  have h2: "status (mkAuction 3 (Some 5) AuctionEnded (Some (mkBid ''b1'' ''bob'' 3 BidActive)) 1)
       \<noteq> AuctionActive"
    by (simp add: demo_defs)
  from ended_auction_is_terminal [OF h1 h2, where w = bob and amt = 4 and now = 5 and ok = True
         and uuid = "''b2''" and ts = 6 and pk = "''bob''" and i = "''b1''"
         and fb = "mkBid ''b1'' ''bob'' 3 BidActive"
         and cs = "[PlaceBid carol ''a1'' 4 5 True ''b2'' 6, CancelBid bob ''b1'',
                    EndAuction ''a1'']"]
       h1 h2
  show ?thesis by (simp add: demo_defs)
qed

section \<open>cancelBid\<close>

lemma findBid_Some_entry:
  "findBid al i pk = Some (k, fb) \<Longrightarrow>
     \<exists>bs. (k, bs) \<in> set al \<and> find (\<lambda>bid. bid_id bid = i \<and> bidder bid = pk) bs = Some fb"
  by (induction al i pk rule: findBid.induct) (auto split: option.splits)

lemma findBid_Some_map_of:
  assumes "findBid al i pk = Some (k, fb)" "distinct (map fst al)"
  shows "\<exists>bs. map_of al k = Some bs
           \<and> find (\<lambda>bid. bid_id bid = i \<and> bidder bid = pk) bs = Some fb"
  using findBid_Some_entry[OF assms(1)] assms(2) by auto

lemma find_Some_mem:
  "find P bs = Some b \<Longrightarrow> b \<in> set bs \<and> P b"
  by (induction bs) (auto split: if_splits)

lemma findBid_None_iff:
  "findBid al i pk = None \<longleftrightarrow>
     (\<forall>bs \<in> snd ` set al. \<forall>b \<in> set bs. \<not> (bid_id b = i \<and> bidder b = pk))"
proof (induction al i pk rule: findBid.induct)
  case (1 bidId pk)
  then show ?case by simp
next
  case (2 auctionIdKey bs rest bidId pk)
  show ?case
  proof (cases "find (\<lambda>bid. bid_id bid = bidId \<and> bidder bid = pk) bs")
    case None
    then have nb: "\<forall>b \<in> set bs. \<not> (bid_id b = bidId \<and> bidder b = pk)"
      by (simp add: find_None_iff)
    from None have "findBid ((auctionIdKey, bs) # rest) bidId pk = findBid rest bidId pk"
      by simp
    with 2[OF None] nb show ?thesis by auto
  next
    case (Some fb)
    with find_Some_mem[OF Some] show ?thesis by auto
  qed
qed

lemma markCancelled_split:
  "find (\<lambda>bid. bid_id bid = i \<and> bidder bid = pk) bs = Some fb \<Longrightarrow>
     \<exists>pre post. bs = pre @ fb # post
        \<and> (\<forall>b \<in> set pre. \<not> (bid_id b = i \<and> bidder b = pk))
        \<and> markCancelled i pk bs = pre @ fb\<lparr>bid_status := BidCancelled\<rparr> # post"
proof (induction bs)
  case Nil
  then show ?case by simp
next
  case (Cons x xs)
  show ?case
  proof (cases "bid_id x = i \<and> bidder x = pk")
    case True
    with Cons.prems have "x = fb" by simp
    with True show ?thesis by (intro exI[of _ "[]"] exI[of _ xs]) simp
  next
    case False
    with Cons.prems have "find (\<lambda>bid. bid_id bid = i \<and> bidder bid = pk) xs = Some fb"
      by simp
    from Cons.IH[OF this] obtain pre post where pp: "xs = pre @ fb # post"
        "\<forall>b \<in> set pre. \<not> (bid_id b = i \<and> bidder b = pk)"
        "markCancelled i pk xs = pre @ fb\<lparr>bid_status := BidCancelled\<rparr> # post"
      by blast
    with False show ?thesis
      by (intro exI[of _ "x # pre"] exI[of _ post]) auto
  qed
qed

lemma markCancelled_others:
  "filter (\<lambda>b. bidder b \<noteq> pk) (markCancelled i pk bs) = filter (\<lambda>b. bidder b \<noteq> pk) bs"
  by (induction bs) auto

lemma cancelBid_bids:
  "map_of (bids (snd (cancelBid w i s))) k = map_of (bids s) k
   \<or> (\<exists>pk. publicKey w = Some pk
         \<and> map_of (bids (snd (cancelBid w i s))) k = Some (markCancelled i pk (bidsOf s k)))"
  by (auto simp: cancelBid_def Let_def AList.update_conv' split: option.splits prod.splits)

lemma cancelBid_success:
  assumes "connected w" "publicKey w = Some pk" "findBid (bids s) i pk = Some (k, fb)"
    "k \<noteq> []" "map_of (auctions s) k = Some a" "status a = AuctionActive"
  shows "fst (cancelBid w i s) = Inr [RefundBid fb]"
    and "bidsOf (snd (cancelBid w i s)) k = markCancelled i pk (bidsOf s k)"
    and "highestBid a = Some hb \<Longrightarrow> bid_id hb = i \<Longrightarrow>
           map_of (auctions (snd (cancelBid w i s))) k
             = Some (recomputeHighest (markCancelled i pk (bidsOf s k)) a)"
  using assms
  by (auto simp: cancelBid_def Let_def bidsOf_def AList.update_conv')

text \<open>
  Claim C6. In an active auction whose only active bid is the highest bid, the bidder
  cancels that bid: the call succeeds with a refund of the bid, \<open>highestBid\<close> is cleared
  and \<open>currentPrice\<close> is back at \<open>startingPrice\<close>; no other field of the auction changes.
  The keys of the \<open>bids\<close> map are distinct, as they are in a \<open>Map\<close>, and the auction id
  is not the empty string.
\<close>

theorem cancelBid_sole_bid_roundtrip:
  assumes "connected w" and "publicKey w = Some pk"
    and "distinct (map fst (bids s))"
    and "findBid (bids s) i pk = Some (k, b)" and "k \<noteq> []"
    and "map_of (auctions s) k = Some a" and "status a = AuctionActive"
    and "highestBid a = Some b"
    and "filter (\<lambda>bid. bid_status bid = BidActive) (bidsOf s k) = [b]"
  shows "fst (cancelBid w i s) = Inr [RefundBid b]
       \<and> map_of (auctions (snd (cancelBid w i s))) k
           = Some (a\<lparr>highestBid := None, currentPrice := startingPrice a\<rparr>)"
proof -
  from findBid_Some_map_of[OF assms(4) assms(3)] obtain bs where
    bs: "map_of (bids s) k = Some bs"
      "find (\<lambda>bid. bid_id bid = i \<and> bidder bid = pk) bs = Some b"
    by blast
  then have bsOf: "bidsOf s k = bs" by (simp add: bidsOf_def)
  from find_Some_mem[OF bs(2)] have idb: "bid_id b = i" by simp
  from markCancelled_split[OF bs(2)] obtain pre post where pp: "bs = pre @ b # post"
      "markCancelled i pk bs = pre @ b\<lparr>bid_status := BidCancelled\<rparr> # post"
    by blast
  from assms(9) bsOf pp(1) have
    "filter (\<lambda>bid. bid_status bid = BidActive) pre = []"
    "filter (\<lambda>bid. bid_status bid = BidActive) post = []"
    by (auto simp: filter_eq_Cons_iff append_eq_Cons_conv filter_empty_conv split: if_splits)
  with pp(2) have "filter (\<lambda>bid. bid_status bid = BidActive) (markCancelled i pk bs) = []"
    by simp
  then have "recomputeHighest (markCancelled i pk (bidsOf s k)) a
      = a\<lparr>highestBid := None, currentPrice := startingPrice a\<rparr>"
    by (simp add: recomputeHighest_def bsOf)
  with cancelBid_success(1)[OF assms(1,2,4,5,6,7)]
       cancelBid_success(3)[OF assms(1,2,4,5,6,7), of b] assms(8) idb
  show ?thesis by simp
qed

theorem cancelBid_sole_bid_roundtrip_witness:
  "findBid (bids (mkStore (mkAuction 2 None AuctionActive
                             (Some (mkBid ''b1'' ''bob'' 2 BidActive)) 1)
                    [mkBid ''b1'' ''bob'' 2 BidActive])) ''b1'' ''bob''
     = Some (''a1'', mkBid ''b1'' ''bob'' 2 BidActive)
   \<and> fst (cancelBid bob ''b1''
        (mkStore (mkAuction 2 None AuctionActive (Some (mkBid ''b1'' ''bob'' 2 BidActive)) 1)
           [mkBid ''b1'' ''bob'' 2 BidActive]))
       = Inr [RefundBid (mkBid ''b1'' ''bob'' 2 BidActive)]
   \<and> map_of (auctions (snd (cancelBid bob ''b1''
        (mkStore (mkAuction 2 None AuctionActive (Some (mkBid ''b1'' ''bob'' 2 BidActive)) 1)
           [mkBid ''b1'' ''bob'' 2 BidActive])))) ''a1''
       = Some (mkAuction 1 None AuctionActive None 1)"
  using cancelBid_sole_bid_roundtrip [where w = bob and pk = "''bob''" and i = "''b1''"
      and k = "''a1''" and b = "mkBid ''b1'' ''bob'' 2 BidActive"
      and a = "mkAuction 2 None AuctionActive (Some (mkBid ''b1'' ''bob'' 2 BidActive)) 1"
      and s = "mkStore (mkAuction 2 None AuctionActive
                          (Some (mkBid ''b1'' ''bob'' 2 BidActive)) 1)
                 [mkBid ''b1'' ''bob'' 2 BidActive]"]
  by (simp add: demo_defs bidsOf_def)

lemma foldl_last_max:
  fixes b :: Bid
  defines "f \<equiv> (\<lambda>prev current. if amount prev > amount current then prev else current)"
  shows "(\<forall>c \<in> set (b # bs). amount c \<le> amount (foldl f b bs))
       \<and> (\<exists>pre post. b # bs = pre @ foldl f b bs # post
             \<and> (\<forall>c \<in> set post. amount c < amount (foldl f b bs)))"
proof (induction bs arbitrary: b)
  case Nil
  have "[b] = [] @ b # []" by simp
  then show ?case by fastforce
next
  case (Cons x xs)
  let ?r = "foldl f (f b x) xs"
  from Cons.IH[of "f b x"] obtain pre post where
    le: "\<forall>c \<in> set (f b x # xs). amount c \<le> amount ?r"
    and sp: "f b x # xs = pre @ ?r # post" "\<forall>c \<in> set post. amount c < amount ?r"
    by blast
  have eq: "foldl f b (x # xs) = ?r" by simp
  show ?case
  proof (cases "amount b > amount x")
    case True
    then have fb: "f b x = b" by (simp add: f_def)
    with le True have all: "\<forall>c \<in> set (b # x # xs). amount c \<le> amount ?r"
      by auto
    show ?thesis
    proof (cases pre)
      case Nil
      with sp(1) fb have r: "?r = b" and p: "post = xs" by auto
      have "b # x # xs = [] @ ?r # (x # xs)" using r by simp
      moreover have "\<forall>c \<in> set (x # xs). amount c < amount ?r"
        using sp(2) p r True by auto
      ultimately show ?thesis unfolding eq using all by blast
    next
      case (Cons p pre')
      with sp(1) fb have "b # x # xs = (b # x # pre') @ ?r # post" by auto
      with sp(2) all show ?thesis unfolding eq by blast
    qed
  next
    case False
    then have fx: "f b x = x" by (simp add: f_def)
    with le False have all: "\<forall>c \<in> set (b # x # xs). amount c \<le> amount ?r"
      by auto
    from sp(1) fx have "b # x # xs = (b # pre) @ ?r # post" by simp
    with sp(2) all show ?thesis unfolding eq by blast
  qed
qed

lemma reduceHighest_last_max:
  assumes "bs \<noteq> []"
  shows "\<exists>nb. reduceHighest bs = Some nb
          \<and> (\<forall>c \<in> set bs. amount c \<le> amount nb)
          \<and> (\<exists>pre post. bs = pre @ nb # post \<and> (\<forall>c \<in> set post. amount c < amount nb))"
proof (cases bs)
  case Nil
  with assms show ?thesis by simp
next
  case (Cons b rest)
  with foldl_last_max[of b rest] show ?thesis by simp
qed

text \<open>
  Claim C7, as the code has it. When \<open>cancelBid\<close> cancels the current highest bid and
  active bids remain in the list of that auction, the new \<open>highestBid\<close> is an active bid of
  the greatest amount and \<open>currentPrice\<close> is that amount. Among several active bids of the
  greatest amount the last one in list order is taken: every bid after the chosen one is
  strictly lower.
\<close>

theorem cancelBid_highest_recomputed:
  assumes "connected w" and "publicKey w = Some pk"
    and "findBid (bids s) i pk = Some (k, fb)" and "k \<noteq> []"
    and "map_of (auctions s) k = Some a" and "status a = AuctionActive"
    and "highestBid a = Some hb" and "bid_id hb = i"
    and "active = filter (\<lambda>bid. bid_status bid = BidActive) (bidsOf (snd (cancelBid w i s)) k)"
    and "active \<noteq> []"
  shows "\<exists>a' nb. map_of (auctions (snd (cancelBid w i s))) k = Some a'
           \<and> highestBid a' = Some nb \<and> currentPrice a' = amount nb
           \<and> nb \<in> set active
           \<and> (\<forall>c \<in> set active. amount c \<le> amount nb)
           \<and> (\<exists>pre post. active = pre @ nb # post
                 \<and> (\<forall>c \<in> set post. amount c < amount nb))"
proof -
  note cs = cancelBid_success[OF assms(1,2,3,4,5,6)]
  from assms(9) cs(2) have act:
    "active = filter (\<lambda>bid. bid_status bid = BidActive) (markCancelled i pk (bidsOf s k))"
    by simp
  from reduceHighest_last_max[OF assms(10)] obtain nb pre post where
    nb: "reduceHighest active = Some nb" "\<forall>c \<in> set active. amount c \<le> amount nb"
      "active = pre @ nb # post" "\<forall>c \<in> set post. amount c < amount nb"
    by blast
  from nb(3) have mem: "nb \<in> set active" by simp
  let ?a' = "recomputeHighest (markCancelled i pk (bidsOf s k)) a"
  from nb(1) act have "highestBid ?a' = Some nb" "currentPrice ?a' = amount nb"
    by (simp_all add: recomputeHighest_def)
  with cs(3)[OF assms(7,8)] nb mem show ?thesis by blast
qed

theorem cancelBid_highest_recomputed_witness:
  "filter (\<lambda>bid. bid_status bid = BidActive)
     (bidsOf (snd (cancelBid bob ''b2''
        (mkStore (mkAuction 3 None AuctionActive (Some (mkBid ''b2'' ''bob'' 3 BidActive)) 2)
           [mkBid ''b1'' ''carol'' 2 BidActive, mkBid ''b2'' ''bob'' 3 BidActive]))) ''a1'')
     = [mkBid ''b1'' ''carol'' 2 BidActive]
   \<and> (\<exists>a'. map_of (auctions (snd (cancelBid bob ''b2''
        (mkStore (mkAuction 3 None AuctionActive (Some (mkBid ''b2'' ''bob'' 3 BidActive)) 2)
           [mkBid ''b1'' ''carol'' 2 BidActive, mkBid ''b2'' ''bob'' 3 BidActive])))) ''a1''
          = Some a'
        \<and> highestBid a' = Some (mkBid ''b1'' ''carol'' 2 BidActive)
        \<and> currentPrice a' = 2)"
proof -
  have act: "[mkBid ''b1'' ''carol'' 2 BidActive] = filter (\<lambda>bid. bid_status bid = BidActive)
     (bidsOf (snd (cancelBid bob ''b2''
        (mkStore (mkAuction 3 None AuctionActive (Some (mkBid ''b2'' ''bob'' 3 BidActive)) 2)
           [mkBid ''b1'' ''carol'' 2 BidActive, mkBid ''b2'' ''bob'' 3 BidActive]))) ''a1'')"
    by (simp add: demo_defs op_defs)
  have "\<exists>a' nb. map_of (auctions (snd (cancelBid bob ''b2''
        (mkStore (mkAuction 3 None AuctionActive (Some (mkBid ''b2'' ''bob'' 3 BidActive)) 2)
           [mkBid ''b1'' ''carol'' 2 BidActive, mkBid ''b2'' ''bob'' 3 BidActive])))) ''a1''
          = Some a'
       \<and> highestBid a' = Some nb \<and> currentPrice a' = amount nb
       \<and> nb \<in> set [mkBid ''b1'' ''carol'' 2 BidActive]
       \<and> (\<forall>c \<in> set [mkBid ''b1'' ''carol'' 2 BidActive]. amount c \<le> amount nb)
       \<and> (\<exists>pre post. [mkBid ''b1'' ''carol'' 2 BidActive] = pre @ nb # post
             \<and> (\<forall>c \<in> set post. amount c < amount nb))"
    by (rule cancelBid_highest_recomputed [where w = bob and pk = "''bob''" and i = "''b2''"
          and k = "''a1''" and fb = "mkBid ''b2'' ''bob'' 3 BidActive"
          and hb = "mkBid ''b2'' ''bob'' 3 BidActive"
          and a = "mkAuction 3 None AuctionActive (Some (mkBid ''b2'' ''bob'' 3 BidActive)) 2",
          OF _ _ _ _ _ _ _ _ act])
       (simp_all add: demo_defs)
  then obtain a' nb where "map_of (auctions (snd (cancelBid bob ''b2''
        (mkStore (mkAuction 3 None AuctionActive (Some (mkBid ''b2'' ''bob'' 3 BidActive)) 2)
           [mkBid ''b1'' ''carol'' 2 BidActive, mkBid ''b2'' ''bob'' 3 BidActive])))) ''a1''
          = Some a'" "highestBid a' = Some nb" "currentPrice a' = amount nb"
       "nb \<in> set [mkBid ''b1'' ''carol'' 2 BidActive]"
    by blast
  then have "\<exists>a'. map_of (auctions (snd (cancelBid bob ''b2''
        (mkStore (mkAuction 3 None AuctionActive (Some (mkBid ''b2'' ''bob'' 3 BidActive)) 2)
           [mkBid ''b1'' ''carol'' 2 BidActive, mkBid ''b2'' ''bob'' 3 BidActive])))) ''a1''
          = Some a'
        \<and> highestBid a' = Some (mkBid ''b1'' ''carol'' 2 BidActive)
        \<and> currentPrice a' = 2"
    by (auto simp: mkBid_def)
  with act show ?thesis by simp
qed

text \<open>
  Claim C7 as stated lets the first bid of the greatest amount win. With two active bids
  of 2, \<open>b1\<close> before \<open>b2\<close>, and the highest bid \<open>b3\<close> of 3 cancelled, the new highest bid
  is \<open>b2\<close>: \<open>reduce\<close> keeps \<open>prev\<close> only when it is strictly greater.
\<close>

theorem cancelBid_tie_picks_last:
  "cancelBid bob ''b3''
     (mkStore (mkAuction 3 None AuctionActive (Some (mkBid ''b3'' ''bob'' 3 BidActive)) 3)
        [mkBid ''b1'' ''carol'' 2 BidActive, mkBid ''b2'' ''alice'' 2 BidActive,
         mkBid ''b3'' ''bob'' 3 BidActive])
   = (Inr [RefundBid (mkBid ''b3'' ''bob'' 3 BidActive)],
      mkStore (mkAuction 2 None AuctionActive (Some (mkBid ''b2'' ''alice'' 2 BidActive)) 3)
        [mkBid ''b1'' ''carol'' 2 BidActive, mkBid ''b2'' ''alice'' 2 BidActive,
         mkBid ''b3'' ''bob'' 3 BidCancelled])
   \<and> mkBid ''b2'' ''alice'' 2 BidActive \<noteq> mkBid ''b1'' ''carol'' 2 BidActive"
  by (simp add: demo_defs op_defs)

text \<open>
  Such a store arises when the two bids of 2 are placed while both are suspended at their
  payment, and a bid of 3 follows.
\<close>

lemma tie_store_reached:
  "snd (placeBid bob ''a1'' 3 10 True ''b3'' 10
     (snd (snd (placeBid_race ''a1'' 10 carol 2 ''b1'' alice 2 ''b2'' True
        (mkStore (mkAuction 1 None AuctionActive None 0) [])))))
   = mkStore (mkAuction 3 None AuctionActive (Some (mkBid ''b3'' ''bob'' 3 BidActive)) 3)
        [mkBid ''b1'' ''carol'' 2 BidActive, mkBid ''b2'' ''alice'' 2 BidActive,
         mkBid ''b3'' ''bob'' 3 BidActive]"
  by (simp add: demo_defs op_defs)

text \<open>
  Claim C8. \<open>cancelBid\<close> succeeds only for a connected wallet and a bid in some list
  whose id is the given one and whose bidder is the wallet's address. When every bid of
  that id belongs to another bidder, the call fails with \<open>BidNotFound\<close> and the store is
  unchanged. In no case does a call change a bid of another bidder: in every list the
  bids of other bidders are the same before and after.
\<close>

theorem cancelBid_scoped_by_owner:
  "(\<forall>calls. fst (cancelBid w i s) = Inr calls \<longrightarrow>
       connected w
       \<and> (\<exists>pk. publicKey w = Some pk
             \<and> (\<exists>bs \<in> snd ` set (bids s). \<exists>b \<in> set bs. bid_id b = i \<and> bidder b = pk)))
   \<and> (connected w \<and> publicKey w = Some pk
        \<and> (\<forall>bs \<in> snd ` set (bids s). \<forall>b \<in> set bs. bid_id b = i \<longrightarrow> bidder b \<noteq> pk)
       \<longrightarrow> cancelBid w i s = (Inl BidNotFound, s))
   \<and> (publicKey w = Some pk \<longrightarrow>
        (\<forall>k. filter (\<lambda>b. bidder b \<noteq> pk) (bidsOf (snd (cancelBid w i s)) k)
              = filter (\<lambda>b. bidder b \<noteq> pk) (bidsOf s k)))"
proof (intro conjI allI impI)
  fix calls assume ok: "fst (cancelBid w i s) = Inr calls"
  then show "connected w"
    by (auto simp: cancelBid_def split: option.splits if_splits)
  from ok obtain pk' where pk': "publicKey w = Some pk'" "findBid (bids s) i pk' \<noteq> None"
    by (auto simp: cancelBid_def split: option.splits if_splits)
  from pk'(2) findBid_None_iff[of "bids s" i pk']
  have "\<exists>bs \<in> snd ` set (bids s). \<exists>b \<in> set bs. bid_id b = i \<and> bidder b = pk'"
    by simp
  with pk'(1) show "\<exists>pk. publicKey w = Some pk
             \<and> (\<exists>bs \<in> snd ` set (bids s). \<exists>b \<in> set bs. bid_id b = i \<and> bidder b = pk)"
    by blast
next
  assume h: "connected w \<and> publicKey w = Some pk
        \<and> (\<forall>bs \<in> snd ` set (bids s). \<forall>b \<in> set bs. bid_id b = i \<longrightarrow> bidder b \<noteq> pk)"
  then have "findBid (bids s) i pk = None"
    using findBid_None_iff[of "bids s" i pk] by blast
  with h show "cancelBid w i s = (Inl BidNotFound, s)"
    by (simp add: cancelBid_def)
next
  fix k assume pk: "publicKey w = Some pk"
  from cancelBid_bids[of w i s k] pk
  show "filter (\<lambda>b. bidder b \<noteq> pk) (bidsOf (snd (cancelBid w i s)) k)
              = filter (\<lambda>b. bidder b \<noteq> pk) (bidsOf s k)"
    by (auto simp: bidsOf_def markCancelled_others)
qed

theorem cancelBid_scoped_by_owner_witness:
  "cancelBid carol ''b1''
     (mkStore (mkAuction 2 None AuctionActive (Some (mkBid ''b1'' ''bob'' 2 BidActive)) 1)
        [mkBid ''b1'' ''bob'' 2 BidActive])
   = (Inl BidNotFound,
      mkStore (mkAuction 2 None AuctionActive (Some (mkBid ''b1'' ''bob'' 2 BidActive)) 1)
        [mkBid ''b1'' ''bob'' 2 BidActive])"
  using cancelBid_scoped_by_owner [where w = carol and pk = "''carol''" and i = "''b1''"
      and s = "mkStore (mkAuction 2 None AuctionActive
                          (Some (mkBid ''b1'' ''bob'' 2 BidActive)) 1)
                 [mkBid ''b1'' ''bob'' 2 BidActive]"]
  by (simp add: demo_defs)

section \<open>Two bids in flight\<close>

text \<open>
  Claim C9. Two \<open>placeBid\<close> calls of 3.0 and 3.1 on an auction priced 2.0 both validate
  before either commits; exactly one of them, the higher, is to end up as the highest bid.
  The code has no check at commit time: when the payment of the 3.1 bid returns first,
  both calls return their bid as placed, and the auction ends with the 3.0 bid as
  \<open>highestBid\<close> and \<open>currentPrice = 3.0\<close>, below the 3.1 bid that is in the list as active.
\<close>

theorem placeBid_race_lower_bid_wins:
  "placeBid_race ''a1'' 5 alice 3.0 ''b2'' bob 3.1 ''b3'' False
     (mkStore (mkAuction 2 None AuctionActive (Some (mkBid ''b1'' ''carol'' 2 BidActive)) 1)
        [mkBid ''b1'' ''carol'' 2 BidActive])
   = (Inr (mkBid ''b2'' ''alice'' 3.0 BidActive\<lparr>timestamp := 5\<rparr>),
      Inr (mkBid ''b3'' ''bob'' 3.1 BidActive\<lparr>timestamp := 5\<rparr>),
      mkStore (mkAuction 3.0 None AuctionActive
                 (Some (mkBid ''b2'' ''alice'' 3.0 BidActive\<lparr>timestamp := 5\<rparr>)) 3)
        [mkBid ''b1'' ''carol'' 2 BidActive,
         mkBid ''b3'' ''bob'' 3.1 BidActive\<lparr>timestamp := 5\<rparr>,
         mkBid ''b2'' ''alice'' 3.0 BidActive\<lparr>timestamp := 5\<rparr>])"
  by (simp add: demo_defs op_defs)

section \<open>getUserBids\<close>

lemma collectUserBids_eq:
  "collectUserBids u al acc =
     acc @ filter (\<lambda>bid. bidder bid = u \<and> bid_status bid = BidActive) (concat (map snd al))"
  by (induction u al acc rule: collectUserBids.induct) simp_all

text \<open>
  Claim C10. For every address, \<open>getUserBids\<close> returns exactly the bids of all bid lists,
  in map and list order, whose bidder is the address and whose status is active; a bid is
  in the result if and only if it lies in some list, belongs to the address and is active.
\<close>

theorem getUserBids_exact:
  "getUserBids s userAddress =
     filter (\<lambda>bid. bidder bid = userAddress \<and> bid_status bid = BidActive)
       (concat (map snd (bids s)))
   \<and> (b \<in> set (getUserBids s userAddress) \<longleftrightarrow>
        (\<exists>bs \<in> snd ` set (bids s). b \<in> set bs)
        \<and> bidder b = userAddress \<and> bid_status b = BidActive)"
  by (auto simp: getUserBids_def collectUserBids_eq)

theorem getUserBids_exact_witness:
  "getUserBids (mkStore (mkAuction 3 None AuctionActive (Some (mkBid ''b3'' ''bob'' 3 BidActive)) 3)
        [mkBid ''b1'' ''bob'' 2 BidCancelled, mkBid ''b2'' ''carol'' 2.5 BidActive,
         mkBid ''b3'' ''bob'' 3 BidActive]) ''bob''
   = [mkBid ''b3'' ''bob'' 3 BidActive]"
  using getUserBids_exact [of
     "mkStore (mkAuction 3 None AuctionActive (Some (mkBid ''b3'' ''bob'' 3 BidActive)) 3)
        [mkBid ''b1'' ''bob'' 2 BidCancelled, mkBid ''b2'' ''carol'' 2.5 BidActive,
         mkBid ''b3'' ''bob'' 3 BidActive]" "''bob''"]
  by (simp add: demo_defs)

end
